theory Spec2Isabelle
  imports Main "HOL-Library.Word"
begin

section \<open>Values of the Go program\<close>

text \<open>
  The package \<open>gomigrate\<close> resolves versioned SQL files and applies them one transaction
  at a time. Go's \<open>int\<close> is taken at its width on 64-bit platforms: a version is a
  \<open>64 word\<close>, read as two's complement with \<open>sint\<close>; \<open>-\<close> on it wraps around as Go's does.
  Go strings are byte sequences, here \<open>string\<close>.
\<close>

type_synonym version = "64 word"

text \<open>
  One constructor per error value the package builds. \<open>External\<close> stands for an error
  handed back by a collaborator (file source, database connection, driver);
  \<open>NumError\<close>, \<open>ErrSyntax\<close> and \<open>ErrRange\<close> are those of \<open>strconv\<close>.
  The comments give the format string of the source.
\<close>

datatype error =
    External string
  | ErrSyntax
  | ErrRange
  | NumError string string error
  | ErrNoDatabase
  | ErrNoDriver
  | LoadFailed error \<comment> \<open>failed to load migrations: %w\<close>
  | NoMigrationsFound string \<comment> \<open>no migrations found in %s\<close>
  | CreateVersionTableFailed error \<comment> \<open>failed to create version table: %w\<close>
  | GetVersionFailed error \<comment> \<open>failed to get current version: %w\<close>
  | SchemaAhead version version
      \<comment> \<open>schema version is ahead of migrations: current=%d, latest=%d\<close>
  | MigrateError string string version error \<comment> \<open>Name, FileName, Version, Err\<close>
  | ReadDirFailed string error \<comment> \<open>failed to read migrations directory '%s': %w\<close>
  | ParseFileNameFailed error \<comment> \<open>failed to parse migration file name: %w\<close>
  | DuplicateVersionDriver version string string
      \<comment> \<open>duplicate migration version and driver: version=%d, driver1=%s, driver2=%s\<close>
  | InvalidExtension string \<comment> \<open>invalid migration file extension: %s\<close>
  | InvalidFileName string \<comment> \<open>invalid migration file name: %s\<close>
  | ParseVersionFailed error \<comment> \<open>failed to parse migration version: %w\<close>
  | ReadFileFailed error \<comment> \<open>failed to read migration file: %w\<close>
  | BeginTxFailed error \<comment> \<open>failed to start transaction: %w\<close>
  | ExecFailed error \<comment> \<open>failed to execute migration: %w\<close>
  | SetVersionFailed error \<comment> \<open>failed to set version: %w\<close>

text \<open>
  The cause chain: \<open>Unwrap\<close> of \<open>MigrateError\<close> is the method of the source, the
  others are what \<open>%w\<close> in \<open>fmt.Errorf\<close> and \<open>strconv.NumError\<close> give.
\<close>

fun Unwrap :: "error \<Rightarrow> error option" where
  "Unwrap (MigrateError n f v e) = Some e"
| "Unwrap (NumError fn s e) = Some e"
| "Unwrap (LoadFailed e) = Some e"
| "Unwrap (CreateVersionTableFailed e) = Some e"
| "Unwrap (GetVersionFailed e) = Some e"
| "Unwrap (ReadDirFailed d e) = Some e"
| "Unwrap (ParseFileNameFailed e) = Some e"
| "Unwrap (ParseVersionFailed e) = Some e"
| "Unwrap (ReadFileFailed e) = Some e"
| "Unwrap (BeginTxFailed e) = Some e"
| "Unwrap (ExecFailed e) = Some e"
| "Unwrap (SetVersionFailed e) = Some e"
| "Unwrap _ = None"

definition wrapMigrateErr :: "string \<Rightarrow> string \<Rightarrow> version \<Rightarrow> error \<Rightarrow> error" where
  "wrapMigrateErr nm fileName v err = MigrateError nm fileName v err"

record migration =
  name :: string
  version :: version
  driver :: string
  filePath :: string

definition defaultDirectory :: string where "defaultDirectory = ''migrations''"
definition defaultTableName :: string where "defaultTableName = ''gomigrate''"
definition migrationFileExt :: string where "migrationFileExt = ''.sql''"
definition migrationSeparator :: string where "migrationSeparator = ''_''"
definition migrationDriverSeparator :: string where "migrationDriverSeparator = ''.''"

section \<open>The standard library functions the parser calls\<close>

text \<open>
  \<open>strings.HasSuffix\<close>, \<open>strings.CutSuffix\<close>, \<open>strings.Cut\<close>, \<open>strings.SplitN\<close> and
  \<open>strings.ReplaceAll\<close>, for a non-empty separator (the source only passes the
  one-byte constants above and \<open>.sql\<close>).
\<close>

definition HasSuffix :: "string \<Rightarrow> string \<Rightarrow> bool" where
  "HasSuffix s suf \<longleftrightarrow> length suf \<le> length s \<and> drop (length s - length suf) s = suf"

definition CutSuffix :: "string \<Rightarrow> string \<Rightarrow> string \<times> bool" where
  "CutSuffix s suf =
     (if HasSuffix s suf then (take (length s - length suf) s, True) else (s, False))"

fun Cut :: "string \<Rightarrow> string \<Rightarrow> (string \<times> string) option" where
  "Cut [] sep = (if sep = [] then Some ([], []) else None)"
| "Cut (c # cs) sep =
     (if take (length sep) (c # cs) = sep then Some ([], drop (length sep) (c # cs))
      else (case Cut cs sep of None \<Rightarrow> None | Some (a, b) \<Rightarrow> Some (c # a, b)))"

fun SplitN :: "string \<Rightarrow> string \<Rightarrow> nat \<Rightarrow> string list" where
  "SplitN s sep 0 = []"
| "SplitN s sep (Suc 0) = [s]"
| "SplitN s sep (Suc (Suc n)) =
     (case Cut s sep of None \<Rightarrow> [s] | Some (a, b) \<Rightarrow> a # SplitN b sep (Suc n))"

function ReplaceAll :: "string \<Rightarrow> string \<Rightarrow> string \<Rightarrow> string" where
  "ReplaceAll [] old new = []"
| "ReplaceAll (c # cs) old new =
     (if old \<noteq> [] \<and> take (length old) (c # cs) = old
      then new @ ReplaceAll (drop (length old) (c # cs)) old new
      else c # ReplaceAll cs old new)"
  by pat_completeness auto
termination
  by (relation "measure (\<lambda>(s, old, new). length s)") (auto simp: neq_Nil_conv)

text \<open>
  \<open>strconv.Atoi\<close> at 64 bits. After an optional sign the bytes are read from the left
  into an unsigned 64-bit number, as \<open>strconv.ParseUint\<close> does in base ten: a byte that
  is no decimal digit is a syntax error, a digit that would take the number past
  \<open>18446744073709551615\<close> is a range error, whichever comes first; no byte at all is a
  syntax error. The number read must then lie in the range of \<open>int\<close>. Each error is a
  \<open>NumError\<close> naming the function and the input.
\<close>

definition isDigit :: "char \<Rightarrow> bool" where
  "isDigit c \<longleftrightarrow> 48 \<le> (of_char c :: nat) \<and> (of_char c :: nat) \<le> 57"

fun parseDigits :: "nat \<Rightarrow> string \<Rightarrow> error + nat" where
  "parseDigits n [] = Inr n"
| "parseDigits n (c # cs) =
     (if \<not> isDigit c then Inl ErrSyntax
      else if 1844674407370955162 \<le> n then Inl ErrRange
      else if 18446744073709551615 < n * 10 + (of_char c - 48) then Inl ErrRange
      else parseDigits (n * 10 + (of_char c - 48)) cs)"

definition Atoi :: "string \<Rightarrow> error + version" where
  "Atoi s =
     (let neg = (s \<noteq> [] \<and> hd s = CHR ''-'');
          ds = (if s \<noteq> [] \<and> (hd s = CHR ''-'' \<or> hd s = CHR ''+'') then tl s else s)
      in if ds = [] then Inl (NumError ''Atoi'' s ErrSyntax)
         else (case parseDigits 0 ds of
                 Inl err \<Rightarrow> Inl (NumError ''Atoi'' s err)
               | Inr n \<Rightarrow>
                   if neg then (if n \<le> 9223372036854775808 then Inr (- of_nat n)
                                else Inl (NumError ''Atoi'' s ErrRange))
                   else (if n \<le> 9223372036854775807 then Inr (of_nat n)
                         else Inl (NumError ''Atoi'' s ErrRange))))"

text \<open>
  \<open>path.Join\<close> of two elements: empty elements are dropped, the rest joined by a slash,
  and the result cleaned. \<open>Clean\<close> works on the slash-separated elements: empty and
  \<open>.\<close> elements go, \<open>..\<close> removes the element before it (at the start of a rooted path
  it goes, at the start of a relative one it stays), and the empty result is \<open>.\<close>.
\<close>

fun splitSlash :: "string \<Rightarrow> string \<Rightarrow> string list" where
  "splitSlash cur [] = [rev cur]"
| "splitSlash cur (c # cs) =
     (if c = CHR ''/'' then rev cur # splitSlash [] cs else splitSlash (c # cur) cs)"

fun cleanElems :: "bool \<Rightarrow> string list \<Rightarrow> string list \<Rightarrow> string list" where
  "cleanElems rooted stack [] = rev stack"
| "cleanElems rooted stack (e # es) =
     (if e = [] \<or> e = ''.'' then cleanElems rooted stack es
      else if e = ''..'' then
        (if stack \<noteq> [] \<and> hd stack \<noteq> ''..'' then cleanElems rooted (tl stack) es
         else if \<not> rooted then cleanElems rooted (e # stack) es
         else cleanElems rooted stack es)
      else cleanElems rooted (e # stack) es)"

fun joinSlash :: "string list \<Rightarrow> string" where
  "joinSlash [] = []"
| "joinSlash [e] = e"
| "joinSlash (e # es) = e @ ''/'' @ joinSlash es"

definition Clean :: "string \<Rightarrow> string" where
  "Clean p =
     (if p = [] then ''.''
      else let rooted = (hd p = CHR ''/'');
               out = (if rooted then ''/'' else []) @ joinSlash (cleanElems rooted [] (splitSlash [] p))
           in if out = [] then ''.'' else out)"

definition Join :: "string \<Rightarrow> string \<Rightarrow> string" where
  "Join dir fileName =
     (if dir = [] \<and> fileName = [] then []
      else if dir = [] then Clean fileName
      else Clean (dir @ ''/'' @ fileName))"

section \<open>Migration Descriptor Parser\<close>

text \<open>
  \<open>parseMigrationFileName\<close>: the extension is cut off, the rest is split at the first
  dot into name and driver, the name at the first underscore into version and label.
  The pointer result of the source is never nil when the error is nil.
\<close>

definition parseMigrationFileName :: "string \<Rightarrow> string \<Rightarrow> error + migration" where
  "parseMigrationFileName dir fileName =
     (case CutSuffix fileName migrationFileExt of
        (_, False) \<Rightarrow> Inl (InvalidExtension fileName)
      | (stem, True) \<Rightarrow>
          let parts = SplitN stem migrationDriverSeparator 2;
              drv = (if length parts > 1 then parts ! 1 else []);
              nm = (if length parts > 1 then parts ! 0 else stem);
              parts' = SplitN nm migrationSeparator 2
          in if length parts' \<noteq> 2 then Inl (InvalidFileName fileName)
             else (case Atoi (parts' ! 0) of
                     Inl err \<Rightarrow> Inl (ParseVersionFailed err)
                   | Inr v \<Rightarrow>
                       Inr \<lparr>name = ReplaceAll (parts' ! 1) ''_'' '' '', version = v,
                            driver = drv, filePath = Join dir fileName\<rparr>))"

section \<open>Migration Set Resolver\<close>

text \<open>
  The file source (\<open>embed.FS\<close>) is a collaborator: a directory listing and a file read,
  both fallible.
\<close>

datatype DirEntry = DirEntry (Name: string) (IsDir: bool)

record FS =
  ReadDir :: "string \<Rightarrow> error + DirEntry list"
  ReadFile :: "string \<Rightarrow> error + string"

text \<open>
  The inner loop of \<open>loadMigrations\<close> together with the \<open>append\<close> after it: the
  slots are scanned from the front; at the first slot with the version of \<open>mig\<close> the
  loop either returns the duplicate error (same driver tag) or continues the outer loop,
  after overwriting the slot when the tag of \<open>mig\<close> is the active driver; when no slot
  has that version, \<open>mig\<close> is appended.
\<close>

fun placeMigration :: "string \<Rightarrow> migration \<Rightarrow> migration list \<Rightarrow> error + migration list" where
  "placeMigration drv mig [] = Inr [mig]"
| "placeMigration drv mig (m # ms) =
     (if version m = version mig then
        (if driver m = driver mig
         then Inl (DuplicateVersionDriver (version mig) (driver m) (driver mig))
         else Inr ((if driver mig = drv then mig else m) # ms))
      else (case placeMigration drv mig ms of
              Inl err \<Rightarrow> Inl err
            | Inr ms' \<Rightarrow> Inr (m # ms')))"

text \<open>The outer loop of \<open>loadMigrations\<close> over the directory entries.\<close>

fun loadLoop :: "string \<Rightarrow> string \<Rightarrow> DirEntry list \<Rightarrow> migration list \<Rightarrow> error + migration list" where
  "loadLoop dir drv [] migrations = Inr migrations"
| "loadLoop dir drv (entry # entries) migrations =
     (if IsDir entry then loadLoop dir drv entries migrations
      else if \<not> HasSuffix (Name entry) migrationFileExt then loadLoop dir drv entries migrations
      else (case parseMigrationFileName dir (Name entry) of
              Inl err \<Rightarrow> Inl (ParseFileNameFailed err)
            | Inr mig \<Rightarrow>
                if driver mig \<noteq> [] \<and> driver mig \<noteq> drv then loadLoop dir drv entries migrations
                else (case placeMigration drv mig migrations of
                        Inl err \<Rightarrow> Inl err
                      | Inr migrations' \<Rightarrow> loadLoop dir drv entries migrations')))"

text \<open>
  \<open>slices.SortFunc\<close> is Go's pattern-defeating quicksort; a slice of at most twelve
  elements it sorts by insertion, each element moving left while the comparison with its
  left neighbour is negative. The model is that insertion sort at every length, which is
  the code's own order for up to twelve resolved migrations (every listing evaluated
  below is that short) and, beyond twelve, whenever the comparison orders the versions
  consistently. The sorted prefix is kept reversed, so that its head is the left
  neighbour.
  The comparison function of \<open>loadMigrations\<close> is the difference of the versions, a
  machine subtraction.
\<close>

fun moveLeft :: "('a \<Rightarrow> 'a \<Rightarrow> version) \<Rightarrow> 'a \<Rightarrow> 'a list \<Rightarrow> 'a list" where
  "moveLeft cmp x [] = [x]"
| "moveLeft cmp x (y # ys) =
     (if sint (cmp x y) < 0 then y # moveLeft cmp x ys else x # y # ys)"

fun insertionSort :: "('a \<Rightarrow> 'a \<Rightarrow> version) \<Rightarrow> 'a list \<Rightarrow> 'a list \<Rightarrow> 'a list" where
  "insertionSort cmp done [] = rev done"
| "insertionSort cmp done (x # xs) = insertionSort cmp (moveLeft cmp x done) xs"

definition SortFunc :: "'a list \<Rightarrow> ('a \<Rightarrow> 'a \<Rightarrow> version) \<Rightarrow> 'a list" where
  "SortFunc xs cmp = insertionSort cmp [] xs"

definition cmpVersion :: "migration \<Rightarrow> migration \<Rightarrow> version" where
  "cmpVersion m1 m2 = version m1 - version m2"

definition loadMigrations :: "FS \<Rightarrow> string \<Rightarrow> string \<Rightarrow> error + migration list" where
  "loadMigrations fs dir drv =
     (case ReadDir fs dir of
        Inl err \<Rightarrow> Inl (ReadDirFailed dir err)
      | Inr entries \<Rightarrow>
          (case loadLoop dir drv entries [] of
             Inl err \<Rightarrow> Inl err
           | Inr migrations \<Rightarrow> Inr (SortFunc migrations cmpVersion)))"

section \<open>Database, driver and configuration\<close>

text \<open>
  The database as far as the package can change it: the list of effects that have
  become durable, and beside it the log of the calls made on the connection, its
  transaction, the driver and the file source's \<open>ReadFile\<close>, in order.
  A transaction collects pending effects: \<open>Commit\<close> makes them durable, all at
  once or (when it fails) not at all; \<open>Rollback\<close> drops them.
\<close>

datatype effect =
    Statements string \<comment> \<open>a migration body executed in full\<close>
  | PartialStatements string \<comment> \<open>what a failed execution of a body left behind\<close>
  | VersionRecord version

datatype call =
    CallCreateVersionTable
  | CallGetVersion
  | CallReadFile string
  | CallBeginTx
  | CallExecContext string
  | CallAddVersion version
  | CallRollback
  | CallCommit

record world =
  durable :: "effect list"
  calls :: "call list"

definition called :: "call \<Rightarrow> world \<Rightarrow> world" where
  "called c w = w\<lparr>calls := calls w @ [c]\<rparr>"

text \<open>
  \<open>Queryer\<close> with the transaction it opens, and \<open>Driver\<close>: what each call answers,
  given the durable state. \<open>None\<close> is the nil error. \<open>DriverName\<close> is the method
  \<open>Name\<close> of the driver. A successful \<open>ExecContext\<close> and a successful
  \<open>AddVersion\<close> put their effect into the transaction, not into the durable state.
\<close>

record Queryer =
  BeginTx :: "effect list \<Rightarrow> error option"
  ExecContext :: "effect list \<Rightarrow> string \<Rightarrow> error option"
  Commit :: "effect list \<Rightarrow> effect list \<Rightarrow> error option"
  Rollback :: "error option"

record Driver =
  DriverName :: string
  CreateVersionTable :: "effect list \<Rightarrow> error option \<times> effect list"
  GetVersion :: "effect list \<Rightarrow> error + version"
  AddVersion :: "effect list \<Rightarrow> version \<Rightarrow> error option"

record config =
  Directory :: string
  TableName :: string
  Logger :: string

datatype MigrateOption = WithDirectory string | WithTableName string | WithLogger string

definition defaultConfig :: config where
  "defaultConfig = \<lparr>Directory = defaultDirectory, TableName = defaultTableName, Logger = ''default''\<rparr>"

fun applyOption :: "MigrateOption \<Rightarrow> config \<Rightarrow> config" where
  "applyOption (WithDirectory dir) c = c\<lparr>Directory := dir\<rparr>"
| "applyOption (WithTableName nm) c = c\<lparr>TableName := nm\<rparr>"
| "applyOption (WithLogger l) c = c\<lparr>Logger := l\<rparr>"

fun applyOptions :: "config \<Rightarrow> MigrateOption list \<Rightarrow> config" where
  "applyOptions c [] = c"
| "applyOptions c (opt # opts) = applyOptions (applyOption opt c) opts"

section \<open>Transactional Executor\<close>

text \<open>
  \<open>tx.Rollback\<close> and \<open>tx.Commit\<close> on a transaction holding the pending effects, then
  \<open>execMigration\<close>, which discards what \<open>Rollback\<close> returns.
\<close>

definition txRollback :: "Queryer \<Rightarrow> effect list \<Rightarrow> world \<Rightarrow> error option \<times> world" where
  "txRollback db pending w = (Rollback db, called CallRollback w)"

definition txCommit :: "Queryer \<Rightarrow> effect list \<Rightarrow> world \<Rightarrow> error option \<times> world" where
  "txCommit db pending w =
     (let w1 = called CallCommit w
      in case Commit db (durable w1) pending of
           Some err \<Rightarrow> (Some err, w1)
         | None \<Rightarrow> (None, w1\<lparr>durable := durable w1 @ pending\<rparr>))"

definition execMigration :: "Queryer \<Rightarrow> Driver \<Rightarrow> migration \<Rightarrow> FS \<Rightarrow> world \<Rightarrow> error option \<times> world" where
  "execMigration db drv m fs w =
     (let w1 = called (CallReadFile (filePath m)) w
      in case ReadFile fs (filePath m) of
           Inl err \<Rightarrow> (Some (ReadFileFailed err), w1)
         | Inr data \<Rightarrow>
             let w2 = called CallBeginTx w1
             in (case BeginTx db (durable w2) of
                   Some err \<Rightarrow> (Some (BeginTxFailed err), w2)
                 | None \<Rightarrow>
                     let w3 = called (CallExecContext data) w2
                     in (case ExecContext db (durable w3) data of
                           Some err \<Rightarrow>
                             (let (_, w4) = txRollback db [PartialStatements data] w3
                              in (Some (ExecFailed err), w4))
                         | None \<Rightarrow>
                             let w4 = called (CallAddVersion (version m)) w3
                             in (case AddVersion drv (durable w4) (version m) of
                                   Some err \<Rightarrow>
                                     (let (_, w5) = txRollback db [Statements data] w4
                                      in (Some (SetVersionFailed err), w5))
                                 | None \<Rightarrow>
                                     txCommit db [Statements data, VersionRecord (version m)] w4))))"

section \<open>Migration Orchestrator\<close>

text \<open>The loop of \<open>Migrate\<close> over the resolved migrations.\<close>

fun migrateLoop ::
  "Queryer \<Rightarrow> Driver \<Rightarrow> FS \<Rightarrow> version \<Rightarrow> migration list \<Rightarrow> world \<Rightarrow> error option \<times> world" where
  "migrateLoop db drv fs currentVersion [] w = (None, w)"
| "migrateLoop db drv fs currentVersion (m # ms) w =
     (if sint (version m) \<le> sint currentVersion then migrateLoop db drv fs currentVersion ms w
      else (case execMigration db drv m fs w of
              (Some err, w') \<Rightarrow> (Some (wrapMigrateErr (name m) (filePath m) (version m) err), w')
            | (None, w') \<Rightarrow> migrateLoop db drv fs currentVersion ms w'))"

text \<open>
  \<open>Migrate\<close>. A nil connection or a nil driver constructor is \<open>None\<close>; the constructor
  gets the table name (the connection it also gets is the \<open>world\<close> here).
\<close>

definition Migrate ::
  "Queryer option \<Rightarrow> (string \<Rightarrow> Driver) option \<Rightarrow> FS \<Rightarrow> MigrateOption list \<Rightarrow> world
     \<Rightarrow> error option \<times> world" where
  "Migrate db newDriver fs opts w =
     (case db of
        None \<Rightarrow> (Some ErrNoDatabase, w)
      | Some q \<Rightarrow>
     (case newDriver of
        None \<Rightarrow> (Some ErrNoDriver, w)
      | Some new \<Rightarrow>
     (let cfg = applyOptions defaultConfig opts;
          drv = new (TableName cfg)
      in case loadMigrations fs (Directory cfg) (DriverName drv) of
           Inl err \<Rightarrow> (Some (LoadFailed err), w)
         | Inr migrations \<Rightarrow>
     (if length migrations = 0 then (Some (NoMigrationsFound (Directory cfg)), w)
      else let w1 = called CallCreateVersionTable w
           in case CreateVersionTable drv (durable w1) of
                (Some err, d) \<Rightarrow> (Some (CreateVersionTableFailed err), w1\<lparr>durable := d\<rparr>)
              | (None, d) \<Rightarrow>
     (let w2 = called CallGetVersion (w1\<lparr>durable := d\<rparr>)
      in case GetVersion drv (durable w2) of
           Inl err \<Rightarrow> (Some (GetVersionFailed err), w2)
         | Inr currentVersion \<Rightarrow>
     (let lastMigration = last migrations
      in if currentVersion = version lastMigration then (None, w2)
         else if sint currentVersion > sint (version lastMigration)
           then (Some (SchemaAhead currentVersion (version lastMigration)), w2)
         else migrateLoop q drv fs currentVersion migrations w2))))))"

section \<open>Vocabulary of the statements\<close>

text \<open>
  A file source held in memory: one listing, whatever the directory, and the files of
  an association list.
\<close>

definition memoryFS :: "DirEntry list \<Rightarrow> (string \<times> string) list \<Rightarrow> FS" where
  "memoryFS entries files =
     \<lparr>ReadDir = (\<lambda>dir. Inr entries),
      ReadFile = (\<lambda>p. case map_of files p of
                         None \<Rightarrow> Inl (External ''file does not exist'')
                       | Some data \<Rightarrow> Inr data)\<rparr>"

text \<open>
  The parts of a file name: the stem is the name without its last four bytes (the
  extension), and a string is cut at the first occurrence of a byte.
\<close>

definition stemOf :: "string \<Rightarrow> string" where
  "stemOf fileName = take (length fileName - length migrationFileExt) fileName"

definition beforeFirst :: "char \<Rightarrow> string \<Rightarrow> string" where
  "beforeFirst c s = takeWhile (\<lambda>x. x \<noteq> c) s"

definition afterFirst :: "char \<Rightarrow> string \<Rightarrow> string" where
  "afterFirst c s = tl (dropWhile (\<lambda>x. x \<noteq> c) s)"

text \<open>
  The file paths of the \<open>ReadFile\<close> calls in a log. The executor reads the file of its
  migration first of all and reads no other file, so these are its invocations, in order.
\<close>

fun filesRead :: "call list \<Rightarrow> string list" where
  "filesRead [] = []"
| "filesRead (CallReadFile p # cs) = p # filesRead cs"
| "filesRead (c # cs) = filesRead cs"

text \<open>
  The migrations of a list that the loop of \<open>Migrate\<close> does not skip, and a list in
  ascending order of version.
\<close>

definition pending :: "version \<Rightarrow> migration list \<Rightarrow> migration list" where
  "pending currentVersion migrations =
     filter (\<lambda>m. sint currentVersion < sint (version m)) migrations"

definition ascending :: "migration list \<Rightarrow> bool" where
  "ascending migrations = sorted_wrt (\<lambda>a b. sint (version a) < sint (version b)) migrations"

text \<open>
  No two versions of the list are \<open>2 ^ 63\<close> or more apart: their difference is an
  \<open>int\<close> of the machine.
\<close>

definition differencesFit :: "migration list \<Rightarrow> bool" where
  "differencesFit ms \<longleftrightarrow>
     (\<forall>a\<in>set ms. \<forall>b\<in>set ms.
        - 9223372036854775808 \<le> sint (version a) - sint (version b) \<and>
        sint (version a) - sint (version b) \<le> 9223372036854775807)"

text \<open>
  A driver and a connection to run the package against: the driver keeps its version
  records in the durable state, refuses a version that is already recorded (the version
  column is a primary key) and reads back the highest one, zero when there is none;
  the connection fails to execute the body \<open>bad\<close>, and its rollbacks report an error.
\<close>

definition storedVersion :: "effect list \<Rightarrow> version" where
  "storedVersion d =
     fold (\<lambda>e v. case e of VersionRecord x \<Rightarrow> (if sint v < sint x then x else v) | _ \<Rightarrow> v) d 0"

definition exampleDriver :: "string \<Rightarrow> string \<Rightarrow> Driver" where
  "exampleDriver nm tableName =
     \<lparr>DriverName = nm,
      CreateVersionTable = (\<lambda>d. (None, d)),
      GetVersion = (\<lambda>d. Inr (storedVersion d)),
      AddVersion = (\<lambda>d v. if VersionRecord v \<in> set d then Some (External ''duplicate key'')
                            else None)\<rparr>"

definition exampleQueryer :: Queryer where
  "exampleQueryer =
     \<lparr>BeginTx = (\<lambda>d. None),
      ExecContext = (\<lambda>d body. if body = ''bad'' then Some (External ''syntax error'') else None),
      Commit = (\<lambda>d pending. None),
      Rollback = Some (External ''rollback failed'')\<rparr>"

text \<open>A directory of migrations for that driver, with a subdirectory and a file of another driver.\<close>

definition exampleFS :: FS where
  "exampleFS =
     memoryFS [DirEntry ''1_initial.sql'' False, DirEntry ''2_some_changes.postgres.sql'' False,
               DirEntry ''2_some_changes.sqlite.sql'' False, DirEntry ''notes'' True]
       [(''migrations/1_initial.sql'', ''CREATE TABLE a''),
        (''migrations/2_some_changes.postgres.sql'', ''ALTER TABLE a'')]"

section \<open>The parser\<close>

lemma SplitN_two:
  "SplitN s sep 2 = (case Cut s sep of None \<Rightarrow> [s] | Some (a, b) \<Rightarrow> [a, b])"
  by (simp add: numeral_2_eq_2 split: option.splits)

lemma Cut_char:
  "Cut s [c] = (if c \<in> set s then Some (beforeFirst c s, afterFirst c s) else None)"
  by (induction s) (auto simp: beforeFirst_def afterFirst_def)

lemma SplitN_char:
  "SplitN s [c] 2 = (if c \<in> set s then [beforeFirst c s, afterFirst c s] else [s])"
  by (simp add: SplitN_two Cut_char)

lemma beforeFirst_id: "c \<notin> set s \<Longrightarrow> beforeFirst c s = s"
  by (auto simp: beforeFirst_def)

lemma afterFirst_append: "c \<notin> set pre \<Longrightarrow> afterFirst c (pre @ c # post) = post"
  by (induction pre) (auto simp: afterFirst_def)

text \<open>What the parser computes on a name that ends in the extension.\<close>

lemma parse_unfold:
  assumes "HasSuffix fileName migrationFileExt"
  shows "parseMigrationFileName dir fileName =
     (let nm = beforeFirst CHR ''.'' (stemOf fileName)
      in if CHR ''_'' \<notin> set nm then Inl (InvalidFileName fileName)
         else (case Atoi (beforeFirst CHR ''_'' nm) of
                 Inl err \<Rightarrow> Inl (ParseVersionFailed err)
               | Inr v \<Rightarrow>
                   Inr \<lparr>name = ReplaceAll (afterFirst CHR ''_'' nm) ''_'' '' '', version = v,
                        driver = (if CHR ''.'' \<in> set (stemOf fileName)
                                  then afterFirst CHR ''.'' (stemOf fileName) else []),
                        filePath = Join dir fileName\<rparr>))"
  using assms
  by (simp add: parseMigrationFileName_def CutSuffix_def stemOf_def migrationDriverSeparator_def
      migrationSeparator_def SplitN_char Let_def beforeFirst_id split: sum.splits)

lemma parse_no_suffix:
  "\<not> HasSuffix fileName migrationFileExt \<Longrightarrow>
   parseMigrationFileName dir fileName = Inl (InvalidExtension fileName)"
  by (simp add: parseMigrationFileName_def CutSuffix_def)

lemmas parse_eval = parseMigrationFileName_def CutSuffix_def HasSuffix_def migrationFileExt_def
  migrationDriverSeparator_def migrationSeparator_def SplitN_two Atoi_def isDigit_def Join_def
  Clean_def Let_def

text \<open>
  C7, as the claim states it, fails: \<open>1_.sql\<close> (empty name part) and \<open>-1_x.sql\<close>
  (negative version) are both parsed without error.
\<close>

theorem parseMigrationFileName_accepts_empty_name_and_negative:
  "parseMigrationFileName ''migrations'' ''1_.sql''
     = Inr \<lparr>name = [], version = 1, driver = [], filePath = ''migrations/1_.sql''\<rparr> \<and>
   parseMigrationFileName ''migrations'' ''-1_x.sql''
     = Inr \<lparr>name = ''x'', version = - 1, driver = [], filePath = ''migrations/-1_x.sql''\<rparr>"
  by (simp add: parse_eval)

text \<open>
  C7, amended: for every file name ending in \<open>.sql\<close>, parsing fails with the
  invalid-file-name error whenever the stem, up to its first dot, contains no
  underscore; when it contains one, parsing fails with the version error exactly when
  \<open>strconv.Atoi\<close> rejects the segment before the first underscore, and otherwise
  succeeds with the version \<open>Atoi\<close> returns, whatever its sign and however short the
  name part.
\<close>

theorem parseMigrationFileName_rejections:
  assumes "HasSuffix fileName migrationFileExt"
  shows "(CHR ''_'' \<notin> set (beforeFirst CHR ''.'' (stemOf fileName)) \<longrightarrow>
            parseMigrationFileName dir fileName = Inl (InvalidFileName fileName)) \<and>
         (CHR ''_'' \<in> set (beforeFirst CHR ''.'' (stemOf fileName)) \<longrightarrow>
            (\<forall>err. Atoi (beforeFirst CHR ''_'' (beforeFirst CHR ''.'' (stemOf fileName))) = Inl err \<longrightarrow>
               parseMigrationFileName dir fileName = Inl (ParseVersionFailed err)) \<and>
            (\<forall>v. Atoi (beforeFirst CHR ''_'' (beforeFirst CHR ''.'' (stemOf fileName))) = Inr v \<longrightarrow>
               (\<exists>m. parseMigrationFileName dir fileName = Inr m \<and> version m = v)))"
  by (simp add: parse_unfold [OF assms] Let_def)

theorem parseMigrationFileName_rejections_witness:
  "HasSuffix ''initial.sql'' migrationFileExt \<and>
   parseMigrationFileName ''migrations'' ''initial.sql'' = Inl (InvalidFileName ''initial.sql'') \<and>
   parseMigrationFileName ''migrations'' ''one_initial.sql''
     = Inl (ParseVersionFailed (NumError ''Atoi'' ''one'' ErrSyntax)) \<and>
   (\<exists>m. parseMigrationFileName ''migrations'' ''-7_initial.sql'' = Inr m \<and> version m = - 7)"
  using parseMigrationFileName_rejections [of "''initial.sql''" "''migrations''"]
    parseMigrationFileName_rejections [of "''one_initial.sql''" "''migrations''"]
    parseMigrationFileName_rejections [of "''-7_initial.sql''" "''migrations''"]
  by (simp add: HasSuffix_def migrationFileExt_def stemOf_def beforeFirst_def Atoi_def isDigit_def)

text \<open>
  C8, as the claim states it, fails: the driver tag of \<open>1_a.b.c.sql\<close> is \<open>b.c\<close>, not
  \<open>c\<close>.
\<close>

theorem parseMigrationFileName_driver_two_dots:
  "parseMigrationFileName ''migrations'' ''1_a.b.c.sql''
     = Inr \<lparr>name = ''a'', version = 1, driver = ''b.c'', filePath = ''migrations/1_a.b.c.sql''\<rparr>"
  by (simp add: parse_eval)

text \<open>
  C8, amended: for every file name ending in \<open>.sql\<close> that parses, the driver tag is
  all of the stem after its first dot (so \<open>1_a.b.c.sql\<close> yields \<open>b.c\<close>), and for a
  stem with no dot the driver tag is the empty string.
\<close>

theorem parseMigrationFileName_driver_after_first_dot:
  assumes "HasSuffix fileName migrationFileExt"
    and "parseMigrationFileName dir fileName = Inr m"
  shows "(CHR ''.'' \<notin> set (stemOf fileName) \<longrightarrow> driver m = []) \<and>
         (\<forall>pre post. stemOf fileName = pre @ ''.'' @ post \<longrightarrow> CHR ''.'' \<notin> set pre \<longrightarrow>
            driver m = post)"
  using assms(2)
  by (auto simp: parse_unfold [OF assms(1)] Let_def afterFirst_append split: if_splits sum.splits)

theorem parseMigrationFileName_driver_after_first_dot_witness:
  "HasSuffix ''2_b.x.y.sql'' migrationFileExt \<and>
   parseMigrationFileName ''db'' ''2_b.x.y.sql''
     = Inr \<lparr>name = ''b'', version = 2, driver = ''x.y'', filePath = ''db/2_b.x.y.sql''\<rparr> \<and>
   stemOf ''2_b.x.y.sql'' = ''2_b'' @ ''.'' @ ''x.y'' \<and> CHR ''.'' \<notin> set ''2_b'' \<and>
   driver \<lparr>name = ''b'', version = 2, driver = ''x.y'', filePath = ''db/2_b.x.y.sql''\<rparr> = ''x.y'' \<and>
   parseMigrationFileName ''db'' ''2_b.sql''
     = Inr \<lparr>name = ''b'', version = 2, driver = [], filePath = ''db/2_b.sql''\<rparr> \<and>
   CHR ''.'' \<notin> set (stemOf ''2_b.sql'')"
  using parseMigrationFileName_driver_after_first_dot [of "''2_b.x.y.sql''" "''db''"
      "\<lparr>name = ''b'', version = 2, driver = ''x.y'', filePath = ''db/2_b.x.y.sql''\<rparr>"]
    parseMigrationFileName_driver_after_first_dot [of "''2_b.sql''" "''db''"
      "\<lparr>name = ''b'', version = 2, driver = [], filePath = ''db/2_b.sql''\<rparr>"]
  by (simp add: parse_eval stemOf_def)

section \<open>The resolver\<close>

lemma loadLoop_skips:
  "\<forall>e\<in>set entries. IsDir e \<or> \<not> HasSuffix (Name e) migrationFileExt \<Longrightarrow>
   loadLoop dir drv entries migs = Inr migs"
  by (induction entries) auto

text \<open>
  C6, as the claim states it, fails: a listing that holds only \<open>5_bad_name.sqll\<close>
  resolves without error, to the empty list.
\<close>

theorem loadMigrations_sqll_only_succeeds:
  "loadMigrations (memoryFS [DirEntry ''5_bad_name.sqll'' False] []) ''migrations'' ''postgres''
     = Inr []"
  by (simp add: loadMigrations_def memoryFS_def HasSuffix_def migrationFileExt_def SortFunc_def)

text \<open>
  C6, amended: for every directory listing containing only files that do not end in
  \<open>.sql\<close>, resolution skips them all and succeeds with the empty list; the
  invalid-extension error is what the parser alone returns for each such name.
\<close>

theorem loadMigrations_skips_other_extensions:
  assumes "ReadDir fs dir = Inr entries"
    and "\<forall>e\<in>set entries. \<not> HasSuffix (Name e) migrationFileExt"
  shows "loadMigrations fs dir drv = Inr [] \<and>
         (\<forall>e\<in>set entries.
            parseMigrationFileName dir (Name e) = Inl (InvalidExtension (Name e)))"
proof -
  from assms(2) have "loadLoop dir drv entries [] = Inr []"
    by (intro loadLoop_skips) blast
  with assms(1) have "loadMigrations fs dir drv = Inr []"
    by (simp add: loadMigrations_def SortFunc_def)
  moreover from assms(2)
  have "\<forall>e\<in>set entries. parseMigrationFileName dir (Name e) = Inl (InvalidExtension (Name e))"
    by (simp add: parse_no_suffix)
  ultimately show ?thesis by blast
qed

theorem loadMigrations_skips_other_extensions_witness:
  "loadMigrations (memoryFS [DirEntry ''README.md'' False, DirEntry ''5_bad_name.sqll'' False] [])
       ''migrations'' ''sqlite'' = Inr [] \<and>
   parseMigrationFileName ''migrations'' ''README.md'' = Inl (InvalidExtension ''README.md'') \<and>
   parseMigrationFileName ''migrations'' ''5_bad_name.sqll''
     = Inl (InvalidExtension ''5_bad_name.sqll'')"
  using loadMigrations_skips_other_extensions
    [of "memoryFS [DirEntry ''README.md'' False, DirEntry ''5_bad_name.sqll'' False] []"
      "''migrations''" "[DirEntry ''README.md'' False, DirEntry ''5_bad_name.sqll'' False]"
      "''sqlite''"]
  by (simp add: memoryFS_def HasSuffix_def migrationFileExt_def)

lemma loadLoop_kept:
  assumes "\<not> IsDir e" and "parseMigrationFileName dir (Name e) = Inr mig"
    and "driver mig = [] \<or> driver mig = drv"
  shows "loadLoop dir drv (e # es) migs =
     (case placeMigration drv mig migs of
        Inl err \<Rightarrow> Inl err
      | Inr migs' \<Rightarrow> loadLoop dir drv es migs')"
proof -
  have "HasSuffix (Name e) migrationFileExt"
    using assms(2) parse_no_suffix [of "Name e" dir] by (cases "HasSuffix (Name e) migrationFileExt") auto
  with assms show ?thesis by auto
qed

lemma placeMigration_slot:
  assumes "\<forall>x\<in>set pre. version x \<noteq> version mig" and "version m = version mig"
  shows "placeMigration drv mig (pre @ m # post) =
     (if driver m = driver mig
      then Inl (DuplicateVersionDriver (version mig) (driver m) (driver mig))
      else Inr (pre @ (if driver mig = drv then mig else m) # post))"
  using assms by (induction pre) auto

lemma placeMigration_fresh:
  "\<forall>x\<in>set migs. version x \<noteq> version mig \<Longrightarrow> placeMigration drv mig migs = Inr (migs @ [mig])"
  by (induction migs) auto

lemma placeMigration_universal:
  assumes "\<forall>m\<in>set migs. version m = version u \<longrightarrow> driver m = drv"
    and "driver u = []" and "drv \<noteq> []"
  shows "placeMigration drv u migs =
     (if \<exists>m\<in>set migs. version m = version u then Inr migs else Inr (migs @ [u]))"
  using assms by (induction migs) auto

lemma placeMigration_universal_dropped:
  assumes "\<exists>m\<in>set migs. version m = version u"
    and "\<forall>m\<in>set migs. version m = version u \<longrightarrow> driver m = drv"
    and "driver u = []" and "drv \<noteq> []"
  shows "placeMigration drv u migs = Inr migs"
  using assms(1) by (simp add: placeMigration_universal [OF assms(2-4)])

text \<open>
  C1, as the claim states it, fails: with the driver \<open>sqlite\<close> active, the universal
  migrations \<open>2_y.sql\<close> and \<open>2_z.sql\<close> are both kept by the driver filter, share
  version 2 and carry the same (empty) driver tag, yet resolution succeeds, because
  \<open>2_x.sqlite.sql\<close> holds the slot of version 2 when they are enumerated.
\<close>

theorem loadMigrations_two_universal_after_specific:
  "loadMigrations
     (memoryFS [DirEntry ''2_x.sqlite.sql'' False, DirEntry ''2_y.sql'' False,
                DirEntry ''2_z.sql'' False] [])
     ''migrations'' ''sqlite''
   = Inr [\<lparr>name = ''x'', version = 2, driver = ''sqlite'',
            filePath = ''migrations/2_x.sqlite.sql''\<rparr>]"
  by (simp add: loadMigrations_def memoryFS_def parse_eval SortFunc_def cmpVersion_def)

text \<open>
  C1, amended: for every directory listing and active driver name, when a migration
  kept by the driver filter is enumerated while the slot of its version is held by an
  earlier kept migration: if both carry the same driver tag, resolution fails with the
  duplicate-version-and-driver error naming both driver tags; if their tags differ, the
  one of the two whose tag equals the active driver holds the slot afterwards, the
  universal one does not, the other slots are unchanged, and the loop goes on to the
  next entry without error.
\<close>

theorem loadLoop_same_version_slot:
  assumes "\<not> IsDir e" and "parseMigrationFileName dir (Name e) = Inr mig"
    and "driver mig = [] \<or> driver mig = drv"
    and "driver m = [] \<or> driver m = drv"
    and "\<forall>x\<in>set pre. version x \<noteq> version mig" and "version m = version mig"
  shows "(driver m = driver mig \<longrightarrow>
            loadLoop dir drv (e # es) (pre @ m # post)
              = Inl (DuplicateVersionDriver (version mig) (driver m) (driver mig))) \<and>
         (driver m \<noteq> driver mig \<longrightarrow>
            (\<exists>k. (k = m \<or> k = mig) \<and> driver k = drv \<and> drv \<noteq> [] \<and>
                 loadLoop dir drv (e # es) (pre @ m # post)
                   = loadLoop dir drv es (pre @ k # post)))"
proof (intro conjI impI)
  assume "driver m = driver mig"
  then show "loadLoop dir drv (e # es) (pre @ m # post)
      = Inl (DuplicateVersionDriver (version mig) (driver m) (driver mig))"
    by (simp add: loadLoop_kept [OF assms(1-3)] placeMigration_slot [OF assms(5,6)] del: loadLoop.simps(2))
next
  assume ne: "driver m \<noteq> driver mig"
  let ?k = "if driver mig = drv then mig else m"
  have step: "loadLoop dir drv (e # es) (pre @ m # post) = loadLoop dir drv es (pre @ ?k # post)"
    using ne by (simp add: loadLoop_kept [OF assms(1-3)] placeMigration_slot [OF assms(5,6)] del: loadLoop.simps(2))
  have "driver ?k = drv \<and> drv \<noteq> []"
    using ne assms(3,4) by auto
  with step show "\<exists>k. (k = m \<or> k = mig) \<and> driver k = drv \<and> drv \<noteq> [] \<and>
      loadLoop dir drv (e # es) (pre @ m # post) = loadLoop dir drv es (pre @ k # post)"
    by (intro exI [of _ ?k]) auto
qed

theorem loadLoop_same_version_slot_witness:
  "loadLoop ''migrations'' ''postgres'' [DirEntry ''1_b.sql'' False]
     [\<lparr>name = ''a'', version = 1, driver = [], filePath = ''migrations/1_a.sql''\<rparr>]
     = Inl (DuplicateVersionDriver 1 [] []) \<and>
   loadLoop ''migrations'' ''postgres'' [DirEntry ''1_b.postgres.sql'' False]
     [\<lparr>name = ''a'', version = 1, driver = [], filePath = ''migrations/1_a.sql''\<rparr>]
     = Inr [\<lparr>name = ''b'', version = 1, driver = ''postgres'',
              filePath = ''migrations/1_b.postgres.sql''\<rparr>]"
  using loadLoop_same_version_slot [of "DirEntry ''1_b.sql'' False" "''migrations''"
      "\<lparr>name = ''b'', version = 1, driver = [], filePath = ''migrations/1_b.sql''\<rparr>"
      "''postgres''"
      "\<lparr>name = ''a'', version = 1, driver = [], filePath = ''migrations/1_a.sql''\<rparr>"
      "[]" "[]" "[]"]
    loadLoop_same_version_slot [of "DirEntry ''1_b.postgres.sql'' False" "''migrations''"
      "\<lparr>name = ''b'', version = 1, driver = ''postgres'',
        filePath = ''migrations/1_b.postgres.sql''\<rparr>"
      "''postgres''"
      "\<lparr>name = ''a'', version = 1, driver = [], filePath = ''migrations/1_a.sql''\<rparr>"
      "[]" "[]" "[]"]
  by (simp add: parse_eval)

text \<open>
  C9: the claim holds of a sort by version, and the code misses it by the overflow of
  its comparison: with the versions \<open>-1\<close> and \<open>9223372036854775807\<close> the difference
  \<open>9223372036854775807 - (-1)\<close> wraps to a negative number, and the resolver returns
  the larger version first.
\<close>

theorem loadMigrations_extreme_versions_misordered:
  "loadMigrations
     (memoryFS [DirEntry ''-1_a.sql'' False, DirEntry ''9223372036854775807_b.sql'' False] [])
     ''migrations'' ''postgres''
   = Inr [\<lparr>name = ''b'', version = 9223372036854775807, driver = [],
            filePath = ''migrations/9223372036854775807_b.sql''\<rparr>,
          \<lparr>name = ''a'', version = - 1, driver = [], filePath = ''migrations/-1_a.sql''\<rparr>]"
  by (simp add: loadMigrations_def memoryFS_def parse_eval SortFunc_def cmpVersion_def)

text \<open>
  Where the differences of the versions fit, the comparison is negative exactly when the
  first version is the smaller one, the insertion sort orders by version, and the list
  the resolver returns is ascending with no version twice.
\<close>

lemma sint_diff_fits:
  fixes x y :: version
  assumes "- 9223372036854775808 \<le> sint x - sint y" and "sint x - sint y \<le> 9223372036854775807"
  shows "sint (x - y) = sint x - sint y"
proof -
  have "sint (x - y) = signed_take_bit 63 (sint x - sint y)"
    by (simp add: sint_word_ariths)
  also have "\<dots> = sint x - sint y"
    using assms by (intro signed_take_bit_int_eq_self) simp_all
  finally show ?thesis .
qed

lemma cmpVersion_negative:
  assumes "differencesFit ms" and "a \<in> set ms" and "b \<in> set ms"
  shows "sint (cmpVersion a b) < 0 \<longleftrightarrow> sint (version a) < sint (version b)"
proof -
  from assms have "sint (version a - version b) = sint (version a) - sint (version b)"
    by (intro sint_diff_fits) (auto simp: differencesFit_def)
  then show ?thesis by (simp add: cmpVersion_def)
qed


lemma descending_distinct:
  "sorted_wrt (\<lambda>a b. sint (version b) < sint (version a)) xs \<Longrightarrow> distinct (map version xs)"
  by (induction xs) auto

lemma moveLeft_descending:
  assumes "sorted_wrt (\<lambda>a b. sint (version b) < sint (version a)) done"
    and "\<forall>y\<in>set done. version y \<noteq> version x"
    and "\<forall>y\<in>set done. sint (cmp x y) < 0 \<longleftrightarrow> sint (version x) < sint (version y)"
  shows "sorted_wrt (\<lambda>a b. sint (version b) < sint (version a)) (moveLeft cmp x done) \<and>
         set (moveLeft cmp x done) = insert x (set done)"
  using assms
proof (induction "done")
  case Nil
  then show ?case by simp
next
  case (Cons y ys)
  show ?case
  proof (cases "sint (version x) < sint (version y)")
    case True
    with Cons show ?thesis by auto
  next
    case False
    moreover from Cons.prems(2) have "sint (version y) \<noteq> sint (version x)"
      by (auto dest: signed_word_eqI)
    ultimately have "sint (version y) < sint (version x)" by linarith
    with False Cons.prems show ?thesis by fastforce
  qed
qed

lemma insertionSort_ascending:
  assumes "sorted_wrt (\<lambda>a b. sint (version b) < sint (version a)) done"
    and "distinct (map version (done @ xs))"
    and "\<forall>a\<in>set done \<union> set xs. \<forall>b\<in>set done \<union> set xs.
           sint (cmp a b) < 0 \<longleftrightarrow> sint (version a) < sint (version b)"
  shows "ascending (insertionSort cmp done xs) \<and>
         set (insertionSort cmp done xs) = set done \<union> set xs"
  using assms
proof (induction xs arbitrary: "done")
  case Nil
  then show ?case by (simp add: ascending_def sorted_wrt_rev)
next
  case (Cons x xs)
  from Cons.prems(2) have fresh: "\<forall>y\<in>set done. version y \<noteq> version x"
    by (auto simp: image_iff)
  from Cons.prems(3) have cx: "\<forall>y\<in>set done. sint (cmp x y) < 0 \<longleftrightarrow> sint (version x) < sint (version y)"
    by simp
  from moveLeft_descending [of "done" x cmp, OF Cons.prems(1) fresh cx]
  have ml: "sorted_wrt (\<lambda>a b. sint (version b) < sint (version a)) (moveLeft cmp x done)"
    "set (moveLeft cmp x done) = insert x (set done)" by simp_all
  have d: "distinct (map version (moveLeft cmp x done @ xs))"
    using descending_distinct [OF ml(1)] Cons.prems(2) ml(2) by auto
  have c: "\<forall>a\<in>set (moveLeft cmp x done) \<union> set xs. \<forall>b\<in>set (moveLeft cmp x done) \<union> set xs.
           sint (cmp a b) < 0 \<longleftrightarrow> sint (version a) < sint (version b)"
    using Cons.prems(3) ml(2) by simp
  from Cons.IH [OF ml(1) d c] ml(2) show ?case by auto
qed

lemma placeMigration_versions:
  "placeMigration drv mig migs = Inr migs' \<Longrightarrow>
   map version migs' =
     (if version mig \<in> version ` set migs then map version migs
      else map version migs @ [version mig])"
proof (induction migs arbitrary: migs')
  case Nil
  then show ?case by auto
next
  case (Cons m ms)
  show ?case
  proof (cases "version m = version mig")
    case True
    with Cons.prems show ?thesis by (auto split: if_splits)
  next
    case False
    with Cons.prems obtain ms' where "placeMigration drv mig ms = Inr ms'" "migs' = m # ms'"
      by (auto split: sum.splits)
    with Cons.IH [of ms'] False show ?thesis by auto
  qed
qed

lemma placeMigration_distinct:
  assumes "placeMigration drv mig migs = Inr migs'" and "distinct (map version migs)"
  shows "distinct (map version migs')"
  using placeMigration_versions [OF assms(1)] assms(2) by (auto split: if_splits)

lemma loadLoop_distinct:
  "loadLoop dir drv entries migs = Inr migs' \<Longrightarrow> distinct (map version migs) \<Longrightarrow>
   distinct (map version migs')"
proof (induction entries arbitrary: migs)
  case Nil
  then show ?case by simp
next
  case (Cons e es)
  then show ?case
    by (auto split: if_splits sum.splits dest: placeMigration_distinct)
qed

lemma set_moveLeft: "set (moveLeft cmp x done) = insert x (set done)"
  by (induction "done") auto

lemma set_insertionSort: "set (insertionSort cmp done xs) = set done \<union> set xs"
  by (induction xs arbitrary: "done") (auto simp: set_moveLeft)

lemma set_SortFunc: "set (SortFunc xs cmp) = set xs"
  by (simp add: SortFunc_def set_insertionSort)

lemma SortFunc_ascending:
  assumes "distinct (map version ms)" and "differencesFit ms"
  shows "ascending (SortFunc ms cmpVersion) \<and> set (SortFunc ms cmpVersion) = set ms"
proof -
  have "\<forall>a\<in>set [] \<union> set ms. \<forall>b\<in>set [] \<union> set ms.
          sint (cmpVersion a b) < 0 \<longleftrightarrow> sint (version a) < sint (version b)"
    using cmpVersion_negative [OF assms(2)] by simp
  from insertionSort_ascending [of "[]" ms cmpVersion, OF _ _ this] assms(1)
  show ?thesis by (simp add: SortFunc_def)
qed

lemma loadMigrations_ascending:
  assumes "loadMigrations fs dir drv = Inr ms" and "differencesFit ms"
  shows "ascending ms"
proof -
  from assms(1) obtain entries migs where l: "loadLoop dir drv entries [] = Inr migs"
    and ms: "ms = SortFunc migs cmpVersion"
    by (auto simp: loadMigrations_def split: sum.splits)
  from loadLoop_distinct [OF l] have d: "distinct (map version migs)" by simp
  from assms(2) have "differencesFit migs"
    by (simp add: ms differencesFit_def set_SortFunc)
  from SortFunc_ascending [OF d this] show ?thesis by (simp add: ms)
qed

text \<open>
  C10: duplicate detection depends on the order of the listing. Of a driver-specific
  file for the active driver and two universal files, all of one version: with the
  driver-specific file enumerated first, resolution succeeds and returns it alone; with
  the two universal files enumerated first, resolution fails with the duplicate error;
  and whenever the slot of that version holds a migration of the active driver, a
  universal file of that version is dropped without error.
\<close>

theorem loadMigrations_listing_order_sensitive:
  assumes p: "\<not> IsDir ep" "parseMigrationFileName dir (Name ep) = Inr p" "driver p = drv" "drv \<noteq> []"
    and u1: "\<not> IsDir eu1" "parseMigrationFileName dir (Name eu1) = Inr u1" "driver u1 = []"
      "version u1 = version p"
    and u2: "\<not> IsDir eu2" "parseMigrationFileName dir (Name eu2) = Inr u2" "driver u2 = []"
      "version u2 = version p"
    and fs1: "ReadDir fs1 dir = Inr [ep, eu1, eu2]"
    and fs2: "ReadDir fs2 dir = Inr [eu1, eu2, ep]"
  shows "loadMigrations fs1 dir drv = Inr [p] \<and>
         loadMigrations fs2 dir drv = Inl (DuplicateVersionDriver (version p) [] []) \<and>
         (\<forall>es migs. (\<exists>m\<in>set migs. version m = version p) \<and>
                     (\<forall>m\<in>set migs. version m = version p \<longrightarrow> driver m = drv) \<longrightarrow>
            loadLoop dir drv (eu1 # es) migs = loadLoop dir drv es migs)"
proof (intro conjI allI impI)
  have kp: "driver p = [] \<or> driver p = drv" and k1: "driver u1 = [] \<or> driver u1 = drv"
    and k2: "driver u2 = [] \<or> driver u2 = drv"
    using p u1 u2 by simp_all
  have "loadLoop dir drv [ep, eu1, eu2] [] = Inr [p]"
    using p(3,4) u1(3,4) u2(3,4)
    by (simp add: loadLoop_kept [OF p(1,2) kp] loadLoop_kept [OF u1(1,2) k1]
        loadLoop_kept [OF u2(1,2) k2] del: loadLoop.simps(2))
  then show "loadMigrations fs1 dir drv = Inr [p]"
    by (simp add: loadMigrations_def fs1 SortFunc_def)
  have "loadLoop dir drv [eu1, eu2, ep] [] = Inl (DuplicateVersionDriver (version p) [] [])"
    using u1(3,4) u2(3,4)
    by (simp add: loadLoop_kept [OF u1(1,2) k1] loadLoop_kept [OF u2(1,2) k2]
        del: loadLoop.simps(2))
  then show "loadMigrations fs2 dir drv = Inl (DuplicateVersionDriver (version p) [] [])"
    by (simp add: loadMigrations_def fs2)
next
  fix es and migs :: "migration list"
  assume "(\<exists>m\<in>set migs. version m = version p) \<and>
          (\<forall>m\<in>set migs. version m = version p \<longrightarrow> driver m = drv)"
  then have "placeMigration drv u1 migs = Inr migs"
    using u1(3,4) p(4) by (intro placeMigration_universal_dropped) auto
  then show "loadLoop dir drv (eu1 # es) migs = loadLoop dir drv es migs"
    using u1(3) by (simp add: loadLoop_kept [OF u1(1,2)] del: loadLoop.simps(2))
qed

theorem loadMigrations_listing_order_sensitive_witness:
  "loadMigrations
     (memoryFS [DirEntry ''3_c.mysql.sql'' False, DirEntry ''3_a.sql'' False,
                DirEntry ''3_b.sql'' False] [])
     ''migrations'' ''mysql''
     = Inr [\<lparr>name = ''c'', version = 3, driver = ''mysql'',
              filePath = ''migrations/3_c.mysql.sql''\<rparr>] \<and>
   loadMigrations
     (memoryFS [DirEntry ''3_a.sql'' False, DirEntry ''3_b.sql'' False,
                DirEntry ''3_c.mysql.sql'' False] [])
     ''migrations'' ''mysql''
     = Inl (DuplicateVersionDriver 3 [] []) \<and>
   loadLoop ''migrations'' ''mysql'' [DirEntry ''3_a.sql'' False]
     [\<lparr>name = ''c'', version = 3, driver = ''mysql'', filePath = ''migrations/3_c.mysql.sql''\<rparr>]
     = Inr [\<lparr>name = ''c'', version = 3, driver = ''mysql'',
              filePath = ''migrations/3_c.mysql.sql''\<rparr>]"
proof -
  let ?p = "\<lparr>name = ''c'', version = 3, driver = ''mysql'', filePath = ''migrations/3_c.mysql.sql''\<rparr>"
  let ?a = "\<lparr>name = ''a'', version = 3, driver = [], filePath = ''migrations/3_a.sql''\<rparr>"
  let ?b = "\<lparr>name = ''b'', version = 3, driver = [], filePath = ''migrations/3_b.sql''\<rparr>"
  let ?ep = "DirEntry ''3_c.mysql.sql'' False"
  let ?ea = "DirEntry ''3_a.sql'' False"
  let ?eb = "DirEntry ''3_b.sql'' False"
  have "loadMigrations (memoryFS [?ep, ?ea, ?eb] []) ''migrations'' ''mysql'' = Inr [?p] \<and>
        loadMigrations (memoryFS [?ea, ?eb, ?ep] []) ''migrations'' ''mysql''
          = Inl (DuplicateVersionDriver (version ?p) [] []) \<and>
        (\<forall>es migs. (\<exists>m\<in>set migs. version m = version ?p) \<and>
                    (\<forall>m\<in>set migs. version m = version ?p \<longrightarrow> driver m = ''mysql'') \<longrightarrow>
           loadLoop ''migrations'' ''mysql'' (?ea # es) migs = loadLoop ''migrations'' ''mysql'' es migs)"
    by (rule loadMigrations_listing_order_sensitive [of ?ep "''migrations''" ?p "''mysql''" ?ea ?a ?eb ?b])
      (simp_all add: parse_eval memoryFS_def)
  then have "loadMigrations (memoryFS [?ep, ?ea, ?eb] []) ''migrations'' ''mysql'' = Inr [?p]"
    and "loadMigrations (memoryFS [?ea, ?eb, ?ep] []) ''migrations'' ''mysql''
          = Inl (DuplicateVersionDriver 3 [] [])"
    and "loadLoop ''migrations'' ''mysql'' (?ea # []) [?p] = loadLoop ''migrations'' ''mysql'' [] [?p]"
    by simp_all
  then show ?thesis by simp
qed

section \<open>The executor\<close>

lemma filesRead_append: "filesRead (xs @ ys) = filesRead xs @ filesRead ys"
  by (induction xs rule: filesRead.induct) auto

lemma execMigration_filesRead:
  "execMigration db drv m fs w = (r, w') \<Longrightarrow>
   filesRead (calls w') = filesRead (calls w) @ [filePath m]"
  by (auto simp: execMigration_def txRollback_def txCommit_def called_def Let_def filesRead_append
      split: sum.splits option.splits)

lemmas world_eval = execMigration_def txRollback_def txCommit_def called_def exampleQueryer_def
  exampleDriver_def memoryFS_def storedVersion_def wrapMigrateErr_def Let_def

lemma exampleFS_resolved:
  "loadMigrations exampleFS ''migrations'' ''postgres''
     = Inr [\<lparr>name = ''initial'', version = 1, driver = [], filePath = ''migrations/1_initial.sql''\<rparr>,
            \<lparr>name = ''some changes'', version = 2, driver = ''postgres'',
              filePath = ''migrations/2_some_changes.postgres.sql''\<rparr>]"
  by (simp add: exampleFS_def loadMigrations_def memoryFS_def parse_eval SortFunc_def cmpVersion_def)

lemma exampleFS_files:
  "ReadFile exampleFS ''migrations/1_initial.sql'' = Inr ''CREATE TABLE a''"
  "ReadFile exampleFS ''migrations/2_some_changes.postgres.sql'' = Inr ''ALTER TABLE a''"
  by (simp_all add: exampleFS_def memoryFS_def)

lemmas config_eval = defaultConfig_def defaultDirectory_def defaultTableName_def

text \<open>
  C3: for every migration applied by the transactional executor, the body and the
  version record become durable together (exactly when the executor returns no error) or
  not at all; when the execution of the body fails the transaction is rolled back and the
  execution error returned; when the version write fails the transaction is rolled back
  and the set-version error returned; \<open>Commit\<close> is called exactly when both
  succeeded; and whatever \<open>Rollback\<close> answers, the result is the same.
\<close>

theorem execMigration_atomic:
  assumes "execMigration db drv m fs w = (r, w')"
  shows "(r = None \<longrightarrow>
            (\<exists>data. ReadFile fs (filePath m) = Inr data \<and>
               durable w' = durable w @ [Statements data, VersionRecord (version m)])) \<and>
         (r \<noteq> None \<longrightarrow> durable w' = durable w) \<and>
         (\<forall>data err. ReadFile fs (filePath m) = Inr data \<and> BeginTx db (durable w) = None \<and>
              ExecContext db (durable w) data = Some err \<longrightarrow>
            r = Some (ExecFailed err) \<and>
            calls w' = calls w @ [CallReadFile (filePath m), CallBeginTx, CallExecContext data,
                                  CallRollback]) \<and>
         (\<forall>data err. ReadFile fs (filePath m) = Inr data \<and> BeginTx db (durable w) = None \<and>
              ExecContext db (durable w) data = None \<and>
              AddVersion drv (durable w) (version m) = Some err \<longrightarrow>
            r = Some (SetVersionFailed err) \<and>
            calls w' = calls w @ [CallReadFile (filePath m), CallBeginTx, CallExecContext data,
                                  CallAddVersion (version m), CallRollback]) \<and>
         (CallCommit \<in> set (drop (length (calls w)) (calls w')) \<longleftrightarrow>
            (\<exists>data. ReadFile fs (filePath m) = Inr data \<and> BeginTx db (durable w) = None \<and>
               ExecContext db (durable w) data = None \<and>
               AddVersion drv (durable w) (version m) = None)) \<and>
         (\<forall>x. execMigration (db\<lparr>Rollback := x\<rparr>) drv m fs w = (r, w'))"
proof (intro conjI)
  show "r = None \<longrightarrow>
            (\<exists>data. ReadFile fs (filePath m) = Inr data \<and>
               durable w' = durable w @ [Statements data, VersionRecord (version m)])"
    using assms
    by (auto simp: execMigration_def txRollback_def txCommit_def called_def Let_def
        split: sum.splits option.splits)
  show "r \<noteq> None \<longrightarrow> durable w' = durable w"
    using assms
    by (auto simp: execMigration_def txRollback_def txCommit_def called_def Let_def
        split: sum.splits option.splits)
  show "\<forall>data err. ReadFile fs (filePath m) = Inr data \<and> BeginTx db (durable w) = None \<and>
              ExecContext db (durable w) data = Some err \<longrightarrow>
            r = Some (ExecFailed err) \<and>
            calls w' = calls w @ [CallReadFile (filePath m), CallBeginTx, CallExecContext data,
                                  CallRollback]"
    using assms
    by (auto simp: execMigration_def txRollback_def called_def Let_def)
  show "\<forall>data err. ReadFile fs (filePath m) = Inr data \<and> BeginTx db (durable w) = None \<and>
              ExecContext db (durable w) data = None \<and>
              AddVersion drv (durable w) (version m) = Some err \<longrightarrow>
            r = Some (SetVersionFailed err) \<and>
            calls w' = calls w @ [CallReadFile (filePath m), CallBeginTx, CallExecContext data,
                                  CallAddVersion (version m), CallRollback]"
    using assms
    by (auto simp: execMigration_def txRollback_def called_def Let_def)
  show "CallCommit \<in> set (drop (length (calls w)) (calls w')) \<longleftrightarrow>
            (\<exists>data. ReadFile fs (filePath m) = Inr data \<and> BeginTx db (durable w) = None \<and>
               ExecContext db (durable w) data = None \<and>
               AddVersion drv (durable w) (version m) = None)"
    using assms
    by (auto simp: execMigration_def txRollback_def txCommit_def called_def Let_def
        split: sum.splits option.splits)
  show "\<forall>x. execMigration (db\<lparr>Rollback := x\<rparr>) drv m fs w = (r, w')"
    using assms
    by (auto simp: execMigration_def txRollback_def txCommit_def called_def Let_def
        split: sum.splits option.splits)
qed

theorem execMigration_atomic_witness:
  "execMigration exampleQueryer (exampleDriver ''postgres'' ''gomigrate'')
     \<lparr>name = ''a'', version = 1, driver = [], filePath = ''migrations/1_a.sql''\<rparr>
     (memoryFS [] [(''migrations/1_a.sql'', ''bad'')]) \<lparr>durable = [], calls = []\<rparr>
   = (Some (ExecFailed (External ''syntax error'')),
      \<lparr>durable = [],
       calls = [CallReadFile ''migrations/1_a.sql'', CallBeginTx, CallExecContext ''bad'',
                CallRollback]\<rparr>) \<and>
   execMigration (exampleQueryer\<lparr>Rollback := None\<rparr>) (exampleDriver ''postgres'' ''gomigrate'')
     \<lparr>name = ''a'', version = 1, driver = [], filePath = ''migrations/1_a.sql''\<rparr>
     (memoryFS [] [(''migrations/1_a.sql'', ''bad'')]) \<lparr>durable = [], calls = []\<rparr>
   = (Some (ExecFailed (External ''syntax error'')),
      \<lparr>durable = [],
       calls = [CallReadFile ''migrations/1_a.sql'', CallBeginTx, CallExecContext ''bad'',
                CallRollback]\<rparr>) \<and>
   execMigration exampleQueryer (exampleDriver ''postgres'' ''gomigrate'')
     \<lparr>name = ''b'', version = 2, driver = [], filePath = ''migrations/2_b.sql''\<rparr>
     (memoryFS [] [(''migrations/2_b.sql'', ''CREATE TABLE b'')])
     \<lparr>durable = [VersionRecord 2], calls = []\<rparr>
   = (Some (SetVersionFailed (External ''duplicate key'')),
      \<lparr>durable = [VersionRecord 2],
       calls = [CallReadFile ''migrations/2_b.sql'', CallBeginTx,
                CallExecContext ''CREATE TABLE b'', CallAddVersion 2, CallRollback]\<rparr>) \<and>
   execMigration exampleQueryer (exampleDriver ''postgres'' ''gomigrate'')
     \<lparr>name = ''b'', version = 2, driver = [], filePath = ''migrations/2_b.sql''\<rparr>
     (memoryFS [] [(''migrations/2_b.sql'', ''CREATE TABLE b'')])
     \<lparr>durable = [VersionRecord 1], calls = []\<rparr>
   = (None,
      \<lparr>durable = [VersionRecord 1, Statements ''CREATE TABLE b'', VersionRecord 2],
       calls = [CallReadFile ''migrations/2_b.sql'', CallBeginTx,
                CallExecContext ''CREATE TABLE b'', CallAddVersion 2, CallCommit]\<rparr>)"
proof -
  let ?Q = exampleQueryer and ?D = "exampleDriver ''postgres'' ''gomigrate''"
  let ?a = "\<lparr>name = ''a'', version = 1, driver = [], filePath = ''migrations/1_a.sql''\<rparr>"
  let ?b = "\<lparr>name = ''b'', version = 2, driver = [], filePath = ''migrations/2_b.sql''\<rparr>"
  let ?Fa = "memoryFS [] [(''migrations/1_a.sql'', ''bad'')]"
  let ?Fb = "memoryFS [] [(''migrations/2_b.sql'', ''CREATE TABLE b'')]"
  have a: "execMigration ?Q ?D ?a ?Fa \<lparr>durable = [], calls = []\<rparr>
      = (Some (ExecFailed (External ''syntax error'')),
         \<lparr>durable = [],
          calls = [CallReadFile ''migrations/1_a.sql'', CallBeginTx, CallExecContext ''bad'',
                   CallRollback]\<rparr>)"
    by (simp add: world_eval)
  have b1: "execMigration ?Q ?D ?b ?Fb \<lparr>durable = [VersionRecord 2], calls = []\<rparr>
      = (Some (SetVersionFailed (External ''duplicate key'')),
         \<lparr>durable = [VersionRecord 2],
          calls = [CallReadFile ''migrations/2_b.sql'', CallBeginTx,
                   CallExecContext ''CREATE TABLE b'', CallAddVersion 2, CallRollback]\<rparr>)"
    by (simp add: world_eval)
  have b2: "execMigration ?Q ?D ?b ?Fb \<lparr>durable = [VersionRecord 1], calls = []\<rparr>
      = (None,
         \<lparr>durable = [VersionRecord 1, Statements ''CREATE TABLE b'', VersionRecord 2],
          calls = [CallReadFile ''migrations/2_b.sql'', CallBeginTx,
                   CallExecContext ''CREATE TABLE b'', CallAddVersion 2, CallCommit]\<rparr>)"
    by (simp add: world_eval)
  from execMigration_atomic [OF a] have "execMigration (?Q\<lparr>Rollback := None\<rparr>) ?D ?a ?Fa \<lparr>durable = [], calls = []\<rparr>
      = (Some (ExecFailed (External ''syntax error'')),
         \<lparr>durable = [],
          calls = [CallReadFile ''migrations/1_a.sql'', CallBeginTx, CallExecContext ''bad'',
                   CallRollback]\<rparr>)"
    by blast
  with a b1 b2 execMigration_atomic [OF b1] execMigration_atomic [OF b2] show ?thesis by simp
qed

section \<open>The orchestrator\<close>

lemma pending_Cons:
  "pending cur (m # ms) = (if sint (version m) \<le> sint cur then pending cur ms else m # pending cur ms)"
  by (simp add: pending_def)

text \<open>
  The loop on any list: for every migration list and stored current version, the loop of
  \<open>Migrate\<close> invokes the executor for the migrations with a version above the current one and for
  no other, in the order of the list (ascending by version when the list is), up to and
  including the first one whose executor call fails; when none fails all of them are
  invoked; on a failure the loop returns at once, in the state that executor call left,
  a \<open>MigrateError\<close> with the name, file path and version of the failing migration,
  whose \<open>Unwrap\<close> is the executor's error.
\<close>

theorem migrateLoop_fail_fast:
  assumes "migrateLoop db drv fs cur migs w = (r, w')"
  shows "\<exists>k \<le> length (pending cur migs).
           filesRead (calls w') = filesRead (calls w) @ map filePath (take k (pending cur migs)) \<and>
           (ascending migs \<longrightarrow> ascending (take k (pending cur migs))) \<and>
           (r = None \<longrightarrow> k = length (pending cur migs)) \<and>
           (\<forall>e. r = Some e \<longrightarrow>
              0 < k \<and>
              (\<exists>cause w0.
                 execMigration db drv (pending cur migs ! (k - 1)) fs w0 = (Some cause, w') \<and>
                 e = MigrateError (name (pending cur migs ! (k - 1)))
                       (filePath (pending cur migs ! (k - 1)))
                       (version (pending cur migs ! (k - 1))) cause \<and>
                 Unwrap e = Some cause))"
proof -
  have run: "\<exists>k \<le> length (pending cur migs).
           filesRead (calls w') = filesRead (calls w) @ map filePath (take k (pending cur migs)) \<and>
           (r = None \<longrightarrow> k = length (pending cur migs)) \<and>
           (\<forall>e. r = Some e \<longrightarrow>
              0 < k \<and>
              (\<exists>cause w0.
                 execMigration db drv (pending cur migs ! (k - 1)) fs w0 = (Some cause, w') \<and>
                 e = MigrateError (name (pending cur migs ! (k - 1)))
                       (filePath (pending cur migs ! (k - 1)))
                       (version (pending cur migs ! (k - 1))) cause \<and>
                 Unwrap e = Some cause))"
    using assms
  proof (induction migs arbitrary: w)
    case Nil
    then show ?case by (simp add: pending_def)
  next
    case (Cons m ms)
    show ?case
    proof (cases "sint (version m) \<le> sint cur")
      case True
      with Cons.prems have "migrateLoop db drv fs cur ms w = (r, w')" by simp
      from Cons.IH [OF this] show ?thesis using True by (simp add: pending_Cons)
    next
      case False
      obtain r1 w1 where ex: "execMigration db drv m fs w = (r1, w1)"
        by (cases "execMigration db drv m fs w")
      have fr: "filesRead (calls w1) = filesRead (calls w) @ [filePath m]"
        by (rule execMigration_filesRead [OF ex])
      show ?thesis
      proof (cases r1)
        case (Some cause)
        with Cons.prems False ex
        have res: "r = Some (MigrateError (name m) (filePath m) (version m) cause)" "w' = w1"
          by (simp_all add: wrapMigrateErr_def)
        show ?thesis
          using False fr res ex Some
          by (intro exI [of _ 1]) (auto simp: pending_Cons)
      next
        case None
        with Cons.prems False ex have "migrateLoop db drv fs cur ms w1 = (r, w')" by simp
        from Cons.IH [OF this] obtain k where k: "k \<le> length (pending cur ms)"
          "filesRead (calls w') = filesRead (calls w1) @ map filePath (take k (pending cur ms))"
          "r = None \<longrightarrow> k = length (pending cur ms)"
          "\<forall>e. r = Some e \<longrightarrow>
              0 < k \<and>
              (\<exists>cause w0.
                 execMigration db drv (pending cur ms ! (k - 1)) fs w0 = (Some cause, w') \<and>
                 e = MigrateError (name (pending cur ms ! (k - 1)))
                       (filePath (pending cur ms ! (k - 1)))
                       (version (pending cur ms ! (k - 1))) cause \<and>
                 Unwrap e = Some cause)"
          by blast
        show ?thesis
          using False fr k
          by (intro exI [of _ "Suc k"]) (auto simp: pending_Cons)
      qed
    qed
  qed
  have asc: "ascending migs \<Longrightarrow> ascending (take k (pending cur migs))" for k
    unfolding ascending_def pending_def
    by (intro sorted_wrt_take sorted_wrt_filter)
  from run asc show ?thesis by blast
qed

theorem migrateLoop_fail_fast_witness:
  "migrateLoop exampleQueryer (exampleDriver ''postgres'' ''gomigrate'')
     (memoryFS [] [(''migrations/1_initial.sql'', ''CREATE TABLE a''),
                   (''migrations/2_some_changes.postgres.sql'', ''bad''),
                   (''migrations/3_more.sql'', ''CREATE TABLE c'')])
     1
     [\<lparr>name = ''initial'', version = 1, driver = [], filePath = ''migrations/1_initial.sql''\<rparr>,
      \<lparr>name = ''some changes'', version = 2, driver = ''postgres'',
        filePath = ''migrations/2_some_changes.postgres.sql''\<rparr>,
      \<lparr>name = ''more'', version = 3, driver = [], filePath = ''migrations/3_more.sql''\<rparr>]
     \<lparr>durable = [Statements ''CREATE TABLE a'', VersionRecord 1], calls = []\<rparr>
   = (Some (MigrateError ''some changes'' ''migrations/2_some_changes.postgres.sql'' 2
              (ExecFailed (External ''syntax error''))),
      \<lparr>durable = [Statements ''CREATE TABLE a'', VersionRecord 1],
       calls = [CallReadFile ''migrations/2_some_changes.postgres.sql'', CallBeginTx,
                CallExecContext ''bad'', CallRollback]\<rparr>) \<and>
   Unwrap (MigrateError ''some changes'' ''migrations/2_some_changes.postgres.sql'' 2
             (ExecFailed (External ''syntax error'')))
   = Some (ExecFailed (External ''syntax error''))"
proof -
  have e: "migrateLoop exampleQueryer (exampleDriver ''postgres'' ''gomigrate'')
     (memoryFS [] [(''migrations/1_initial.sql'', ''CREATE TABLE a''),
                   (''migrations/2_some_changes.postgres.sql'', ''bad''),
                   (''migrations/3_more.sql'', ''CREATE TABLE c'')])
     1
     [\<lparr>name = ''initial'', version = 1, driver = [], filePath = ''migrations/1_initial.sql''\<rparr>,
      \<lparr>name = ''some changes'', version = 2, driver = ''postgres'',
        filePath = ''migrations/2_some_changes.postgres.sql''\<rparr>,
      \<lparr>name = ''more'', version = 3, driver = [], filePath = ''migrations/3_more.sql''\<rparr>]
     \<lparr>durable = [Statements ''CREATE TABLE a'', VersionRecord 1], calls = []\<rparr>
   = (Some (MigrateError ''some changes'' ''migrations/2_some_changes.postgres.sql'' 2
              (ExecFailed (External ''syntax error''))),
      \<lparr>durable = [Statements ''CREATE TABLE a'', VersionRecord 1],
       calls = [CallReadFile ''migrations/2_some_changes.postgres.sql'', CallBeginTx,
                CallExecContext ''bad'', CallRollback]\<rparr>)"
    by (simp add: world_eval)
  from e migrateLoop_fail_fast [OF e] show ?thesis by simp
qed

text \<open>
  The branch taken when nothing is pending: when the stored current version equals the
  version of the last element of the resolved list, \<open>Migrate\<close> returns success after the two driver calls
  \<open>CreateVersionTable\<close> and \<open>GetVersion\<close>: the executor is not invoked, and
  the durable state is the one \<open>CreateVersionTable\<close> left.
\<close>

theorem Migrate_up_to_date_is_noop:
  assumes "drv = new (TableName (applyOptions defaultConfig opts))"
    and "loadMigrations fs (Directory (applyOptions defaultConfig opts)) (DriverName drv) = Inr migs"
    and "migs \<noteq> []"
    and "CreateVersionTable drv (durable w) = (None, d)"
    and "GetVersion drv d = Inr (version (last migs))"
  shows "Migrate (Some db) (Some new) fs opts w
           = (None, w\<lparr>durable := d, calls := calls w @ [CallCreateVersionTable, CallGetVersion]\<rparr>)"
  using assms by (simp add: Migrate_def Let_def called_def)

theorem Migrate_up_to_date_is_noop_witness:
  "Migrate (Some exampleQueryer) (Some (exampleDriver ''postgres'')) exampleFS []
     \<lparr>durable = [], calls = []\<rparr>
   = (None,
      \<lparr>durable = [Statements ''CREATE TABLE a'', VersionRecord 1,
                  Statements ''ALTER TABLE a'', VersionRecord 2],
       calls = [CallCreateVersionTable, CallGetVersion,
                CallReadFile ''migrations/1_initial.sql'', CallBeginTx,
                CallExecContext ''CREATE TABLE a'', CallAddVersion 1, CallCommit,
                CallReadFile ''migrations/2_some_changes.postgres.sql'', CallBeginTx,
                CallExecContext ''ALTER TABLE a'', CallAddVersion 2, CallCommit]\<rparr>) \<and>
   Migrate (Some exampleQueryer) (Some (exampleDriver ''postgres'')) exampleFS []
     \<lparr>durable = [Statements ''CREATE TABLE a'', VersionRecord 1,
                 Statements ''ALTER TABLE a'', VersionRecord 2],
      calls = []\<rparr>
   = (None,
      \<lparr>durable = [Statements ''CREATE TABLE a'', VersionRecord 1,
                  Statements ''ALTER TABLE a'', VersionRecord 2],
       calls = [CallCreateVersionTable, CallGetVersion]\<rparr>)"
proof -
  let ?d = "[Statements ''CREATE TABLE a'', VersionRecord 1, Statements ''ALTER TABLE a'',
             VersionRecord 2]"
  have first: "Migrate (Some exampleQueryer) (Some (exampleDriver ''postgres'')) exampleFS []
     \<lparr>durable = [], calls = []\<rparr>
   = (None,
      \<lparr>durable = ?d,
       calls = [CallCreateVersionTable, CallGetVersion,
                CallReadFile ''migrations/1_initial.sql'', CallBeginTx,
                CallExecContext ''CREATE TABLE a'', CallAddVersion 1, CallCommit,
                CallReadFile ''migrations/2_some_changes.postgres.sql'', CallBeginTx,
                CallExecContext ''ALTER TABLE a'', CallAddVersion 2, CallCommit]\<rparr>)"
    by (simp add: Migrate_def config_eval exampleFS_resolved exampleFS_files world_eval)
  have second: "Migrate (Some exampleQueryer) (Some (exampleDriver ''postgres'')) exampleFS []
     \<lparr>durable = ?d, calls = []\<rparr>
   = (None, \<lparr>durable = ?d, calls = []\<rparr>
        \<lparr>durable := ?d, calls := calls \<lparr>durable = ?d, calls = []\<rparr>
            @ [CallCreateVersionTable, CallGetVersion]\<rparr>)"
    by (rule Migrate_up_to_date_is_noop [where drv = "exampleDriver ''postgres'' ''gomigrate''"
          and migs = "[\<lparr>name = ''initial'', version = 1, driver = [],
                         filePath = ''migrations/1_initial.sql''\<rparr>,
                       \<lparr>name = ''some changes'', version = 2, driver = ''postgres'',
                         filePath = ''migrations/2_some_changes.postgres.sql''\<rparr>]"])
      (simp_all add: config_eval exampleFS_resolved exampleDriver_def storedVersion_def)
  from first second show ?thesis by simp
qed

text \<open>
  The branch taken when the schema is ahead: when the stored current version is strictly
  greater than the version of every resolved migration, \<open>Migrate\<close> fails with the
  error that carries the current version and the version of the last element of the
  resolved list, after the two driver calls
  \<open>CreateVersionTable\<close> and \<open>GetVersion\<close>: the executor is invoked for no
  migration, and the durable state is the one \<open>CreateVersionTable\<close> left.
\<close>

theorem Migrate_schema_ahead_fails:
  assumes "drv = new (TableName (applyOptions defaultConfig opts))"
    and "loadMigrations fs (Directory (applyOptions defaultConfig opts)) (DriverName drv) = Inr migs"
    and "migs \<noteq> []"
    and "CreateVersionTable drv (durable w) = (None, d)"
    and "GetVersion drv d = Inr cur"
    and "\<forall>m\<in>set migs. sint (version m) < sint cur"
  shows "Migrate (Some db) (Some new) fs opts w
           = (Some (SchemaAhead cur (version (last migs))),
              w\<lparr>durable := d, calls := calls w @ [CallCreateVersionTable, CallGetVersion]\<rparr>)"
proof -
  from assms(3,6) have lt: "sint (version (last migs)) < sint cur" by simp
  then have "cur \<noteq> version (last migs)" by auto
  with lt assms(1-5) show ?thesis by (simp add: Migrate_def Let_def called_def)
qed

theorem Migrate_schema_ahead_fails_witness:
  "Migrate (Some exampleQueryer) (Some (exampleDriver ''postgres'')) exampleFS
     [WithTableName ''schema_versions'']
     \<lparr>durable = [VersionRecord 5], calls = []\<rparr>
   = (Some (SchemaAhead 5 2),
      \<lparr>durable = [VersionRecord 5], calls = [CallCreateVersionTable, CallGetVersion]\<rparr>)"
proof -
  have "Migrate (Some exampleQueryer) (Some (exampleDriver ''postgres'')) exampleFS
     [WithTableName ''schema_versions'']
     \<lparr>durable = [VersionRecord 5], calls = []\<rparr>
   = (Some (SchemaAhead 5
        (version (last [\<lparr>name = ''initial'', version = 1, driver = [],
                         filePath = ''migrations/1_initial.sql''\<rparr>,
                       \<lparr>name = ''some changes'', version = 2, driver = ''postgres'',
                         filePath = ''migrations/2_some_changes.postgres.sql''\<rparr>]))),
      \<lparr>durable = [VersionRecord 5], calls = []\<rparr>
        \<lparr>durable := [VersionRecord 5],
         calls := calls \<lparr>durable = [VersionRecord 5], calls = []\<rparr>
            @ [CallCreateVersionTable, CallGetVersion]\<rparr>)"
    by (rule Migrate_schema_ahead_fails [where drv = "exampleDriver ''postgres'' ''schema_versions''"])
      (simp_all add: config_eval exampleFS_resolved exampleDriver_def storedVersion_def)
  then show ?thesis by simp
qed

text \<open>
  A second run. With a driver whose \<open>CreateVersionTable\<close> changes nothing and whose
  \<open>GetVersion\<close> reads back the highest version recorded, and an ascending list of
  migrations, a run of \<open>Migrate\<close> that succeeded leaves the version of the last
  migration stored, and the next run makes the two driver calls and nothing else.
\<close>

lemma execMigration_success:
  "execMigration db drv m fs w = (None, w') \<Longrightarrow>
   \<exists>data. ReadFile fs (filePath m) = Inr data \<and>
          durable w' = durable w @ [Statements data, VersionRecord (version m)]"
  by (auto simp: execMigration_def txRollback_def txCommit_def called_def Let_def
      split: sum.splits option.splits)

lemma storedVersion_applied:
  "storedVersion (d @ [Statements body, VersionRecord v])
     = (if sint (storedVersion d) < sint v then v else storedVersion d)"
  by (simp add: storedVersion_def)

lemma migrateLoop_success_stored:
  assumes "migrateLoop db drv fs cur migs w = (None, w')"
    and "ascending migs"
    and "\<forall>m\<in>set (pending cur migs). sint (storedVersion (durable w)) < sint (version m)"
  shows "storedVersion (durable w') =
     (if pending cur migs = [] then storedVersion (durable w) else version (last (pending cur migs)))"
  using assms
proof (induction migs arbitrary: w)
  case Nil
  then show ?case by (simp add: pending_def)
next
  case (Cons m ms)
  from Cons.prems(2) have asc: "ascending ms" by (simp add: ascending_def)
  show ?case
  proof (cases "sint (version m) \<le> sint cur")
    case True
    with Cons.prems have "migrateLoop db drv fs cur ms w = (None, w')"
      and "\<forall>x\<in>set (pending cur ms). sint (storedVersion (durable w)) < sint (version x)"
      by (simp_all add: pending_Cons)
    from Cons.IH [OF this(1) asc this(2)] True show ?thesis by (simp add: pending_Cons)
  next
    case False
    obtain r1 w1 where ex: "execMigration db drv m fs w = (r1, w1)"
      by (cases "execMigration db drv m fs w")
    with Cons.prems(1) False have r1: "r1 = None" and rest: "migrateLoop db drv fs cur ms w1 = (None, w')"
      by (auto split: option.splits)
    from execMigration_success [OF ex [unfolded r1]] obtain data
      where "durable w1 = durable w @ [Statements data, VersionRecord (version m)]" by blast
    moreover from Cons.prems(3) False have "sint (storedVersion (durable w)) < sint (version m)"
      by (simp add: pending_Cons)
    ultimately have st: "storedVersion (durable w1) = version m"
      by (simp add: storedVersion_applied)
    from Cons.prems(2) have "\<forall>x\<in>set ms. sint (version m) < sint (version x)"
      by (simp add: ascending_def)
    then have "\<forall>x\<in>set (pending cur ms). sint (storedVersion (durable w1)) < sint (version x)"
      by (simp add: st pending_def)
    from Cons.IH [OF rest asc this] False st show ?thesis by (simp add: pending_Cons)
  qed
qed

lemma last_pending:
  "migs \<noteq> [] \<Longrightarrow> sint cur < sint (version (last migs)) \<Longrightarrow>
   pending cur migs \<noteq> [] \<and> last (pending cur migs) = last migs"
proof -
  assume ne: "migs \<noteq> []" and lt: "sint cur < sint (version (last migs))"
  from ne have "last migs \<in> set migs" by simp
  with lt have "pending cur migs \<noteq> []"
    by (auto simp: pending_def filter_empty_conv)
  moreover from ne lt have "last (pending cur migs) = last migs"
    unfolding pending_def by (cases migs rule: rev_cases) simp_all
  ultimately show ?thesis by simp
qed

lemma Migrate_twice:
  assumes drv: "drv = new (TableName (applyOptions defaultConfig opts))"
    and create: "\<forall>d. CreateVersionTable drv d = (None, d)"
    and get: "\<forall>d. GetVersion drv d = Inr (storedVersion d)"
    and load: "loadMigrations fs (Directory (applyOptions defaultConfig opts)) (DriverName drv) = Inr migs"
    and asc: "ascending migs"
    and first: "Migrate (Some db) (Some new) fs opts w = (None, w1)"
  shows "Migrate (Some db) (Some new) fs opts w1
           = (None, w1\<lparr>calls := calls w1 @ [CallCreateVersionTable, CallGetVersion]\<rparr>)"
proof -
  let ?cur = "storedVersion (durable w)"
  let ?w2 = "w\<lparr>calls := calls w @ [CallCreateVersionTable, CallGetVersion]\<rparr>"
  from first load drv have ne: "migs \<noteq> []"
    by (auto simp: Migrate_def Let_def split: if_splits)
  have stored: "storedVersion (durable w1) = version (last migs)"
  proof (cases "?cur = version (last migs)")
    case True
    with first load drv ne create get have "w1 = ?w2"
      by (simp add: Migrate_def Let_def called_def)
    with True show ?thesis by simp
  next
    case False
    then have neq: "sint ?cur \<noteq> sint (version (last migs))"
      by (auto dest: signed_word_eqI)
    from False first load drv ne create get
    have nlt: "\<not> sint (version (last migs)) < sint ?cur"
      and loop: "migrateLoop db drv fs ?cur migs ?w2 = (None, w1)"
      by (auto simp: Migrate_def Let_def called_def split: if_splits)
    from neq nlt have lt: "sint ?cur < sint (version (last migs))" by linarith
    have "\<forall>m\<in>set (pending ?cur migs). sint (storedVersion (durable ?w2)) < sint (version m)"
      by (simp add: pending_def)
    from migrateLoop_success_stored [OF loop asc this] last_pending [OF ne lt]
    show ?thesis by simp
  qed
  with load drv ne create get show ?thesis
    by (simp add: Migrate_def Let_def called_def)
qed

section \<open>The orchestrator on a misordered list\<close>

text \<open>
  The overflow of the resolver's comparison reaches \<open>Migrate\<close>, which takes the list
  to be ascending and its last element to be the highest version. Two listings, in the
  order of their file names, and what the resolver makes of them.
\<close>

lemma farApart_resolved:
  "loadMigrations
     (memoryFS [DirEntry ''-4611686018427387904_n.sql'' False,
                DirEntry ''9223372036854775807_h.sql'' False,
                DirEntry ''93_l.sql'' False] files)
     ''migrations'' ''sqlite''
   = Inr [\<lparr>name = ''h'', version = 9223372036854775807, driver = [],
            filePath = ''migrations/9223372036854775807_h.sql''\<rparr>,
          \<lparr>name = ''n'', version = - 4611686018427387904, driver = [],
            filePath = ''migrations/-4611686018427387904_n.sql''\<rparr>,
          \<lparr>name = ''l'', version = 93, driver = [], filePath = ''migrations/93_l.sql''\<rparr>]"
  by (simp add: loadMigrations_def memoryFS_def parse_eval SortFunc_def cmpVersion_def)

lemma minAndFive_resolved:
  "loadMigrations
     (memoryFS [DirEntry ''-9223372036854775808_a.sql'' False, DirEntry ''5_b.sql'' False] files)
     ''migrations'' ''sqlite''
   = Inr [\<lparr>name = ''b'', version = 5, driver = [], filePath = ''migrations/5_b.sql''\<rparr>,
          \<lparr>name = ''a'', version = - 9223372036854775808, driver = [],
            filePath = ''migrations/-9223372036854775808_a.sql''\<rparr>]"
  by (simp add: loadMigrations_def memoryFS_def parse_eval SortFunc_def cmpVersion_def)

lemmas run_eval = execMigration_def txRollback_def txCommit_def called_def exampleQueryer_def
  exampleDriver_def storedVersion_def wrapMigrateErr_def Let_def

text \<open>
  C2: the claim holds of a list in ascending order of version, and the code misses it by
  the overflow of the resolver's comparison, the defect of C9. For the files
  \<open>-4611686018427387904_n.sql\<close>, \<open>9223372036854775807_h.sql\<close> and \<open>93_l.sql\<close> and an
  empty database, \<open>Migrate\<close> invokes the executor for version
  \<open>9223372036854775807\<close> first and for version \<open>93\<close> after it: the migrations above
  the current version are not applied in ascending order of version.
\<close>

theorem Migrate_applies_out_of_version_order:
  "Migrate (Some exampleQueryer) (Some (exampleDriver ''sqlite''))
     (memoryFS [DirEntry ''-4611686018427387904_n.sql'' False,
                DirEntry ''9223372036854775807_h.sql'' False,
                DirEntry ''93_l.sql'' False]
        [(''migrations/-4611686018427387904_n.sql'', ''CREATE TABLE n''),
         (''migrations/9223372036854775807_h.sql'', ''CREATE TABLE h''),
         (''migrations/93_l.sql'', ''CREATE TABLE l'')])
     [] \<lparr>durable = [], calls = []\<rparr>
   = (None,
      \<lparr>durable = [Statements ''CREATE TABLE h'', VersionRecord 9223372036854775807,
                  Statements ''CREATE TABLE l'', VersionRecord 93],
       calls = [CallCreateVersionTable, CallGetVersion,
                CallReadFile ''migrations/9223372036854775807_h.sql'', CallBeginTx,
                CallExecContext ''CREATE TABLE h'', CallAddVersion 9223372036854775807,
                CallCommit,
                CallReadFile ''migrations/93_l.sql'', CallBeginTx,
                CallExecContext ''CREATE TABLE l'', CallAddVersion 93, CallCommit]\<rparr>)"
proof -
  let ?files = "[(''migrations/-4611686018427387904_n.sql'', ''CREATE TABLE n''),
         (''migrations/9223372036854775807_h.sql'', ''CREATE TABLE h''),
         (''migrations/93_l.sql'', ''CREATE TABLE l'')]"
  let ?fs = "memoryFS [DirEntry ''-4611686018427387904_n.sql'' False,
                DirEntry ''9223372036854775807_h.sql'' False,
                DirEntry ''93_l.sql'' False] ?files"
  have files: "ReadFile ?fs ''migrations/9223372036854775807_h.sql'' = Inr ''CREATE TABLE h''"
    "ReadFile ?fs ''migrations/93_l.sql'' = Inr ''CREATE TABLE l''"
    by (simp_all add: memoryFS_def)
  show ?thesis
    by (simp add: Migrate_def config_eval farApart_resolved files run_eval)
qed

text \<open>
  C4: the claim holds when the last element of the resolved list is the highest version,
  and the code misses it by the same overflow. After the run above the stored version
  \<open>9223372036854775807\<close> is the highest resolved version and no file is new, yet the
  second run does not return success: the last element of the list is version \<open>93\<close>,
  and \<open>Migrate\<close> fails with the schema-ahead error.
\<close>

theorem Migrate_second_run_schema_ahead:
  "Migrate (Some exampleQueryer) (Some (exampleDriver ''sqlite''))
     (memoryFS [DirEntry ''-4611686018427387904_n.sql'' False,
                DirEntry ''9223372036854775807_h.sql'' False,
                DirEntry ''93_l.sql'' False]
        [(''migrations/-4611686018427387904_n.sql'', ''CREATE TABLE n''),
         (''migrations/9223372036854775807_h.sql'', ''CREATE TABLE h''),
         (''migrations/93_l.sql'', ''CREATE TABLE l'')])
     []
     \<lparr>durable = [Statements ''CREATE TABLE h'', VersionRecord 9223372036854775807,
                 Statements ''CREATE TABLE l'', VersionRecord 93],
      calls = []\<rparr>
   = (Some (SchemaAhead 9223372036854775807 93),
      \<lparr>durable = [Statements ''CREATE TABLE h'', VersionRecord 9223372036854775807,
                  Statements ''CREATE TABLE l'', VersionRecord 93],
       calls = [CallCreateVersionTable, CallGetVersion]\<rparr>)"
  by (simp add: Migrate_def config_eval farApart_resolved run_eval)

text \<open>
  C5: the claim holds when the last element of the resolved list is the highest version,
  and the code misses it by the same overflow. For the files
  \<open>-9223372036854775808_a.sql\<close> and \<open>5_b.sql\<close> the resolver returns version \<open>5\<close>
  before version \<open>-9223372036854775808\<close>; with the stored version \<open>10\<close>, above both,
  \<open>Migrate\<close> fails without invoking the executor, but the error reports
  \<open>-9223372036854775808\<close> as the latest version, not the highest resolved version
  \<open>5\<close>.
\<close>

theorem Migrate_schema_ahead_reports_lowest:
  "loadMigrations
     (memoryFS [DirEntry ''-9223372036854775808_a.sql'' False, DirEntry ''5_b.sql'' False] [])
     ''migrations'' ''sqlite''
   = Inr [\<lparr>name = ''b'', version = 5, driver = [], filePath = ''migrations/5_b.sql''\<rparr>,
          \<lparr>name = ''a'', version = - 9223372036854775808, driver = [],
            filePath = ''migrations/-9223372036854775808_a.sql''\<rparr>] \<and>
   Migrate (Some exampleQueryer) (Some (exampleDriver ''sqlite''))
     (memoryFS [DirEntry ''-9223372036854775808_a.sql'' False, DirEntry ''5_b.sql'' False] [])
     [] \<lparr>durable = [VersionRecord 10], calls = []\<rparr>
   = (Some (SchemaAhead 10 (- 9223372036854775808)),
      \<lparr>durable = [VersionRecord 10], calls = [CallCreateVersionTable, CallGetVersion]\<rparr>)"
  by (simp add: Migrate_def config_eval minAndFive_resolved run_eval)

end
